theory Spec2Isabelle
  imports
    Main
    "HOL-Library.Char_ord"
    "HOL-Library.List_Lexorder"
    "HOL-Library.Product_Lexorder"
    "HOL-Library.Multiset"
begin

section \<open>Strings\<close>

text \<open>
  Strings are byte strings holding UTF-8, the encoding in which SQLite stores and compares
  TEXT values. The Thai literals of \<^verbatim>\<open>server.js\<close> are written as their Unicode code
  points and encoded by \<open>utf8\<close>.
\<close>

definition utf8_cp :: "nat \<Rightarrow> string" where
  "utf8_cp n =
     (if n < 0x80 then [char_of n]
      else if n < 0x800 then [char_of (0xC0 + n div 64), char_of (0x80 + n mod 64)]
      else if n < 0x10000 then
        [char_of (0xE0 + n div 4096), char_of (0x80 + n div 64 mod 64), char_of (0x80 + n mod 64)]
      else
        [char_of (0xF0 + n div 262144), char_of (0x80 + n div 4096 mod 64),
         char_of (0x80 + n div 64 mod 64), char_of (0x80 + n mod 64)])"

definition utf8 :: "nat list \<Rightarrow> string" where
  "utf8 cps = concat (map utf8_cp cps)"

text \<open>
  \<^verbatim>\<open>String.prototype.trim\<close> removes the code points of WhiteSpace and LineTerminator
  from both ends.
\<close>

definition WHITE_SPACE :: "string list" where
  "WHITE_SPACE = map utf8_cp
     [0x09, 0x0A, 0x0B, 0x0C, 0x0D, 0x20, 0xA0, 0x1680,
      0x2000, 0x2001, 0x2002, 0x2003, 0x2004, 0x2005, 0x2006, 0x2007, 0x2008, 0x2009, 0x200A,
      0x2028, 0x2029, 0x202F, 0x205F, 0x3000, 0xFEFF]"

definition starts_with :: "string \<Rightarrow> string \<Rightarrow> bool" where
  "starts_with s p = (p \<noteq> [] \<and> take (length p) s = p)"

function strip :: "string list \<Rightarrow> string \<Rightarrow> string" where
  "strip ws s =
     (case find (starts_with s) ws of
        None \<Rightarrow> s
      | Some p \<Rightarrow> strip ws (drop (length p) s))"
  by pat_completeness auto
termination
proof (relation "measure (\<lambda>(ws, s). length s)")
  show "wf (measure (\<lambda>(ws, s). length s))" by simp
next
  fix ws :: "string list" and s p :: string
  assume "find (starts_with s) ws = Some p"
  then have "starts_with s p" by (auto simp: find_Some_iff)
  then have "p \<noteq> []" and "take (length p) s = p" by (auto simp: starts_with_def)
  then have "s \<noteq> []" by auto
  with \<open>p \<noteq> []\<close> show "((ws, drop (length p) s), (ws, s)) \<in> measure (\<lambda>(ws, s). length s)"
    by simp
qed

declare strip.simps [simp del]

definition trim :: "string \<Rightarrow> string" where
  "trim s = rev (strip (map rev WHITE_SPACE) (rev (strip WHITE_SPACE s)))"

text \<open>A number inside a template literal prints in decimal.\<close>

fun decimal :: "nat \<Rightarrow> string" where
  "decimal n =
     (if n < 10 then [char_of (48 + n)]
      else decimal (n div 10) @ [char_of (48 + n mod 10)])"

declare decimal.simps [simp del]

text \<open>\<^verbatim>\<open>lines.join('\n')\<close>\<close>

fun join :: "string \<Rightarrow> string list \<Rightarrow> string" where
  "join sep [] = []"
| "join sep [x] = x"
| "join sep (x # y # ys) = x @ sep @ join sep (y # ys)"

text \<open>
  A request field is absent (\<open>None\<close>) or a string. \<^verbatim>\<open>!v\<close> holds for an absent and
  for an empty one; \<^verbatim>\<open>v || ''\<close> reads it with the empty string for both.
\<close>

definition falsy :: "string option \<Rightarrow> bool" where
  "falsy v = (case v of None \<Rightarrow> True | Some s \<Rightarrow> s = [])"

definition or_empty :: "string option \<Rightarrow> string" where
  "or_empty v = (case v of None \<Rightarrow> [] | Some s \<Rightarrow> s)"

section \<open>Configuration\<close>

definition TIME_SLOTS :: "string list" where
  "TIME_SLOTS =
     [''09:00'', ''09:30'',
      ''10:00'', ''10:30'',
      ''11:00'', ''11:30'',
      ''13:00'', ''13:30'',
      ''14:00'', ''14:30'',
      ''15:00'', ''15:30'',
      ''16:00'']"

definition CAPACITY_PER_SLOT :: nat where
  "CAPACITY_PER_SLOT = 1"

section \<open>The bookings table\<close>

text \<open>
  A row of table \<^verbatim>\<open>bookings\<close>. Column \<^verbatim>\<open>id\<close> is \<open>bookingId\<close> (the name the
  handler gives \<^verbatim>\<open>this.lastID\<close>), column \<^verbatim>\<open>note\<close> is \<open>note_col\<close>.
\<close>

record booking =
  bookingId :: nat
  lineUserId :: string
  name :: string
  date :: string
  time :: string
  note_col :: string
  status :: string
  createdAt :: string

datatype sql =
    Select_count_by_date string
  | Select_count string string
  | Insert string string string string string string
  | Select_by_user string

datatype log_entry = Db_error | Line_push_error

text \<open>
  The state outside the handlers: the table in rowid order, the AUTOINCREMENT counter
  (the largest rowid handed out so far), the statements the database has executed, the
  messages handed to the LINE client and what \<^verbatim>\<open>console.error\<close> printed.
\<close>

record world =
  bookings :: "booking list"
  lastID :: nat
  executed :: "sql list"
  pushed :: "(string \<times> string) list"
  replied :: "(string \<times> string) list"
  console :: "log_entry list"

definition init_world :: world where
  "init_world = \<lparr>bookings = [], lastID = 0, executed = [], pushed = [], replied = [],
     console = []\<rparr>"

text \<open>
  What the handlers do not control: whether a statement, a push or a reply fails, and the
  clock read by \<^verbatim>\<open>new Date().toISOString()\<close>.
\<close>

record env =
  get_err :: bool
  run_err :: bool
  all_err :: bool
  push_err :: bool
  reply_err :: bool
  now :: string

section \<open>Statements\<close>

text \<open>\<^verbatim>\<open>SELECT COUNT(*) as count FROM bookings WHERE date = ? AND time = ?\<close>\<close>

definition select_count :: "string \<Rightarrow> string \<Rightarrow> booking list \<Rightarrow> nat" where
  "select_count d t rows = length (filter (\<lambda>b. date b = d \<and> time b = t) rows)"

text \<open>
  \<^verbatim>\<open>SELECT time, COUNT(*) as count FROM bookings WHERE date = ? GROUP BY time\<close>:
  one row for each time that occurs on the date.
\<close>

definition select_count_by_date :: "string \<Rightarrow> booking list \<Rightarrow> (string \<times> nat) list" where
  "select_count_by_date d rows =
     (let hits = filter (\<lambda>b. date b = d) rows
      in map (\<lambda>t. (t, length (filter (\<lambda>b. time b = t) hits))) (sort (remdups (map time hits))))"

text \<open>
  \<^verbatim>\<open>SELECT * FROM bookings WHERE lineUserId = ? ORDER BY date, time\<close>. TEXT columns
  compare bytewise, a proper prefix first, which is the lexicographic order on byte
  strings. Rows with equal date and time, which SQL leaves in any order, keep their
  table order.
\<close>

definition select_by_user :: "string \<Rightarrow> booking list \<Rightarrow> booking list" where
  "select_by_user u rows =
     sort_key (\<lambda>b. (date b, time b)) (filter (\<lambda>b. lineUserId b = u) rows)"

text \<open>
  \<^verbatim>\<open>INSERT INTO bookings (lineUserId, name, date, time, note, createdAt) VALUES (?,?,?,?,?,?)\<close>:
  the id is one more than the largest handed out, the status is the column default.
\<close>

definition insert_row ::
  "string \<Rightarrow> string \<Rightarrow> string \<Rightarrow> string \<Rightarrow> string \<Rightarrow> string \<Rightarrow> world \<Rightarrow> world" where
  "insert_row u n d t nt ts w =
     w\<lparr>bookings := bookings w @
          [\<lparr>bookingId = lastID w + 1, lineUserId = u, name = n, date = d, time = t,
            note_col = nt, status = ''CONFIRMED'', createdAt = ts\<rparr>],
       lastID := lastID w + 1\<rparr>"

definition db_get :: "env \<Rightarrow> string \<Rightarrow> string \<Rightarrow> world \<Rightarrow> nat option \<times> world" where
  "db_get e d t w =
     (let w' = w\<lparr>executed := executed w @ [Select_count d t]\<rparr>
      in if get_err e then (None, w') else (Some (select_count d t (bookings w)), w'))"

definition db_run ::
  "env \<Rightarrow> string \<Rightarrow> string \<Rightarrow> string \<Rightarrow> string \<Rightarrow> string \<Rightarrow> string \<Rightarrow> world
     \<Rightarrow> nat option \<times> world" where
  "db_run e u n d t nt ts w =
     (let w' = w\<lparr>executed := executed w @ [Insert u n d t nt ts]\<rparr>
      in if run_err e then (None, w') else (Some (lastID w + 1), insert_row u n d t nt ts w'))"

definition db_all_by_user :: "env \<Rightarrow> string \<Rightarrow> world \<Rightarrow> booking list option \<times> world" where
  "db_all_by_user e u w =
     (let w' = w\<lparr>executed := executed w @ [Select_by_user u]\<rparr>
      in if all_err e then (None, w') else (Some (select_by_user u (bookings w)), w'))"

definition db_all_by_date ::
  "env \<Rightarrow> string \<Rightarrow> world \<Rightarrow> (string \<times> nat) list option \<times> world" where
  "db_all_by_date e d w =
     (let w' = w\<lparr>executed := executed w @ [Select_count_by_date d]\<rparr>
      in if all_err e then (None, w') else (Some (select_count_by_date d (bookings w)), w'))"

definition console_error :: "log_entry \<Rightarrow> world \<Rightarrow> world" where
  "console_error x w = w\<lparr>console := console w @ [x]\<rparr>"

section \<open>The LINE client\<close>

text \<open>
  \<open>pushed\<close> and \<open>replied\<close> record the calls; a failed delivery is a rejected promise.
  The handler of \<^verbatim>\<open>/api/book\<close> catches the rejection of its push and prints it.
\<close>

definition push_message :: "env \<Rightarrow> string \<Rightarrow> string \<Rightarrow> world \<Rightarrow> world" where
  "push_message e to txt w =
     (let w' = w\<lparr>pushed := pushed w @ [(to, txt)]\<rparr>
      in if push_err e then console_error Line_push_error w' else w')"

datatype outcome = Resolved_null | Resolved_reply | Rejected

definition reply_message :: "env \<Rightarrow> string \<Rightarrow> string \<Rightarrow> world \<Rightarrow> outcome \<times> world" where
  "reply_message e tok txt w =
     (if reply_err e then Rejected else Resolved_reply,
      w\<lparr>replied := replied w @ [(tok, txt)]\<rparr>)"

definition PUSH_HEAD :: string where
  "PUSH_HEAD = utf8
    [0x2705, 0x20, 0xE08, 0xE2D, 0xE07, 0xE04, 0xE34, 0xE27, 0xE2A, 0xE33, 0xE40, 0xE23,
     0xE47, 0xE08, 0xE41, 0xE25, 0xE49, 0xE27, 0xA, 0xA, 0xE0A, 0xE37, 0xE48, 0xE2D,
     0x3A, 0x20]"

definition PUSH_DATE :: string where
  "PUSH_DATE = utf8
    [0xA, 0xE27, 0xE31, 0xE19, 0xE17, 0xE35, 0xE48, 0x3A, 0x20]"

definition PUSH_TIME :: string where
  "PUSH_TIME = utf8
    [0xA, 0xE40, 0xE27, 0xE25, 0xE32, 0x3A, 0x20]"

definition PUSH_ID :: string where
  "PUSH_ID = utf8
    [0xA, 0xE2B, 0xE21, 0xE32, 0xE22, 0xE40, 0xE25, 0xE02, 0xE01, 0xE32, 0xE23, 0xE08,
     0xE2D, 0xE07, 0x3A, 0x20, 0x23]"

definition confirmation_text :: "string \<Rightarrow> string \<Rightarrow> string \<Rightarrow> nat \<Rightarrow> string" where
  "confirmation_text n d t i =
     PUSH_HEAD @ n @ PUSH_DATE @ d @ PUSH_TIME @ t @ PUSH_ID @ decimal i"

section \<open>Responses\<close>

record slot =
  slot_time :: string
  capacity :: nat
  booked :: nat
  available :: int
  isFull :: bool

datatype body =
    Error_body string
  | Booking_body booking
  | Rows_body "booking list"
  | Slots_body string "slot list"

type_synonym response = "nat \<times> body"

section \<open>GET /api/slots\<close>

text \<open>
  \<^verbatim>\<open>bookedMap[r.time] = r.count\<close> on an object literal: the key \<^verbatim>\<open>__proto__\<close> is the
  prototype accessor, and assigning a number to it stores nothing.
\<close>

definition set_prop :: "(string \<rightharpoonup> nat) \<Rightarrow> string \<times> nat \<Rightarrow> (string \<rightharpoonup> nat)" where
  "set_prop m r = (if fst r = ''__proto__'' then m else m(fst r \<mapsto> snd r))"

text \<open>
  The body of \<^verbatim>\<open>TIME_SLOTS.map\<close>. No label of \<open>TIME_SLOTS\<close> names a property that an
  object inherits, so \<^verbatim>\<open>bookedMap[t]\<close> is the stored count or undefined.
\<close>

definition slot_of :: "(string \<rightharpoonup> nat) \<Rightarrow> string \<Rightarrow> slot" where
  "slot_of bookedMap t =
     (let used = (case bookedMap t of None \<Rightarrow> 0 | Some c \<Rightarrow> c);
          avail = int CAPACITY_PER_SLOT - int used
      in \<lparr>slot_time = t, capacity = CAPACITY_PER_SLOT, booked = used, available = avail,
          isFull = (avail \<le> 0)\<rparr>)"

definition get_slots :: "env \<Rightarrow> string option \<Rightarrow> world \<Rightarrow> response \<times> world" where
  "get_slots e q w =
     (if falsy q then ((400, Error_body ''date is required (YYYY-MM-DD)''), w)
      else
        (case db_all_by_date e (or_empty q) w of
           (None, w1) \<Rightarrow> ((500, Error_body ''db error''), console_error Db_error w1)
         | (Some rows, w1) \<Rightarrow>
             (let bookedMap = foldl set_prop Map.empty rows;
                  slots = map (slot_of bookedMap) TIME_SLOTS
              in ((200, Slots_body (or_empty q) slots), w1))))"

section \<open>POST /api/book\<close>

record book_req =
  req_lineUserId :: "string option"
  req_name :: "string option"
  req_date :: "string option"
  req_time :: "string option"
  req_note :: "string option"

text \<open>
  The handler runs in three pieces: the route function, which validates and submits the
  count query; the callback of \<^verbatim>\<open>db.get\<close>, which decides and submits the insert; the
  callback of \<^verbatim>\<open>db.run\<close>, which pushes the confirmation and responds. A task is a
  request between two pieces.
\<close>

datatype task =
    Get_pending book_req
  | Get_done book_req "nat option"
  | Run_pending book_req string
  | Run_done book_req string "nat option"
  | Responded response

definition book_start :: "book_req \<Rightarrow> task" where
  "book_start rq =
     (if falsy (req_lineUserId rq) \<or> falsy (req_name rq) \<or> falsy (req_date rq)
         \<or> falsy (req_time rq)
      then Responded (400, Error_body ''lineUserId, name, date, time are required'')
      else Get_pending rq)"

definition book_on_count :: "env \<Rightarrow> book_req \<Rightarrow> nat option \<Rightarrow> world \<Rightarrow> task \<times> world" where
  "book_on_count e rq r w =
     (case r of
        None \<Rightarrow> (Responded (500, Error_body ''db error''), console_error Db_error w)
      | Some c \<Rightarrow>
          if c \<ge> CAPACITY_PER_SLOT then (Responded (409, Error_body ''slot is full''), w)
          else (Run_pending rq (now e), w))"

definition book_on_insert ::
  "env \<Rightarrow> book_req \<Rightarrow> string \<Rightarrow> nat option \<Rightarrow> world \<Rightarrow> response \<times> world" where
  "book_on_insert e rq ts r w =
     (case r of
        None \<Rightarrow> ((500, Error_body ''db error''), console_error Db_error w)
      | Some i \<Rightarrow>
          (let u = or_empty (req_lineUserId rq); n = or_empty (req_name rq);
               d = or_empty (req_date rq); t = or_empty (req_time rq)
           in ((201, Booking_body
                  \<lparr>bookingId = i, lineUserId = u, name = n, date = d, time = t,
                   note_col = or_empty (req_note rq), status = ''CONFIRMED'', createdAt = ts\<rparr>),
               push_message e u (confirmation_text n d t i) w)))"

definition submit_insert :: "env \<Rightarrow> book_req \<Rightarrow> string \<Rightarrow> world \<Rightarrow> nat option \<times> world" where
  "submit_insert e rq ts w =
     db_run e (or_empty (req_lineUserId rq)) (or_empty (req_name rq)) (or_empty (req_date rq))
       (or_empty (req_time rq)) (or_empty (req_note rq)) ts w"

text \<open>One piece of one request: a statement executes or a callback runs.\<close>

fun advance :: "env \<Rightarrow> task \<Rightarrow> world \<Rightarrow> task \<times> world" where
  "advance e (Get_pending rq) w =
     (case db_get e (or_empty (req_date rq)) (or_empty (req_time rq)) w of
        (r, w') \<Rightarrow> (Get_done rq r, w'))"
| "advance e (Get_done rq r) w = book_on_count e rq r w"
| "advance e (Run_pending rq ts) w =
     (case submit_insert e rq ts w of (r, w') \<Rightarrow> (Run_done rq ts r, w'))"
| "advance e (Run_done rq ts r) w =
     (case book_on_insert e rq ts r w of (res, w') \<Rightarrow> (Responded res, w'))"
| "advance e (Responded res) w = (Responded res, w)"

text \<open>
  A request served with no other request in between: the nested callbacks of the source,
  read top to bottom.
\<close>

definition book :: "env \<Rightarrow> book_req \<Rightarrow> world \<Rightarrow> response \<times> world" where
  "book e rq w =
     (if falsy (req_lineUserId rq) \<or> falsy (req_name rq) \<or> falsy (req_date rq)
         \<or> falsy (req_time rq)
      then ((400, Error_body ''lineUserId, name, date, time are required''), w)
      else
        (case db_get e (or_empty (req_date rq)) (or_empty (req_time rq)) w of
           (None, w1) \<Rightarrow> ((500, Error_body ''db error''), console_error Db_error w1)
         | (Some c, w1) \<Rightarrow>
             if c \<ge> CAPACITY_PER_SLOT then ((409, Error_body ''slot is full''), w1)
             else
               (case submit_insert e rq (now e) w1 of
                  (r, w2) \<Rightarrow> book_on_insert e rq (now e) r w2)))"

text \<open>
  Requests in flight together: the tasks, and a schedule naming which task moves next.
  An index with no task moves nothing.
\<close>

definition step :: "env \<Rightarrow> nat \<Rightarrow> task list \<times> world \<Rightarrow> task list \<times> world" where
  "step e i sys =
     (case sys of
        (ts, w) \<Rightarrow>
          if i < length ts then (case advance e (ts ! i) w of (t', w') \<Rightarrow> (ts[i := t'], w'))
          else (ts, w))"

definition run :: "env \<Rightarrow> nat list \<Rightarrow> task list \<times> world \<Rightarrow> task list \<times> world" where
  "run e sched sys = foldl (\<lambda>s i. step e i s) sys sched"

section \<open>GET /api/my-bookings\<close>

definition my_bookings :: "env \<Rightarrow> string option \<Rightarrow> world \<Rightarrow> response \<times> world" where
  "my_bookings e q w =
     (if falsy q then ((400, Error_body ''lineUserId is required''), w)
      else
        (case db_all_by_user e (or_empty q) w of
           (None, w1) \<Rightarrow> ((500, Error_body ''db error''), console_error Db_error w1)
         | (Some rows, w1) \<Rightarrow> ((200, Rows_body rows), w1)))"

section \<open>The LINE event handler\<close>

text \<open>
  The fields of an event that the handler reads. The user id of the source is taken to
  be present, as it is in a message that a user sends.
\<close>

record line_event =
  ev_type :: string
  message_type :: string
  message_text :: string
  source_userId :: string
  replyToken :: string

definition MY_QUEUE :: string where
  "MY_QUEUE = utf8
    [0xE04, 0xE34, 0xE27, 0xE02, 0xE2D, 0xE07, 0xE09, 0xE31, 0xE19]"

definition NO_QUEUE :: string where
  "NO_QUEUE = utf8
    [0xE15, 0xE2D, 0xE19, 0xE19, 0xE35, 0xE49, 0xE22, 0xE31, 0xE07, 0xE44, 0xE21, 0xE48,
     0xE21, 0xE35, 0xE04, 0xE34, 0xE27, 0xE43, 0xE19, 0xE23, 0xE30, 0xE1A, 0xE1A, 0xE19,
     0xE30, 0xE04, 0xE30]"

definition BULLET :: string where
  "BULLET = utf8 [0x2022, 0x20]"

definition AT_TIME :: string where
  "AT_TIME = utf8 [0x20, 0xE40, 0xE27, 0xE25, 0xE32, 0x20]"

definition QUEUE_HEAD :: string where
  "QUEUE_HEAD = utf8
    [0x1F5D3, 0x20, 0xE04, 0xE34, 0xE27, 0xE02, 0xE2D, 0xE07, 0xE04, 0xE38, 0xE13, 0xE21,
     0xE35, 0xE14, 0xE31, 0xE07, 0xE19, 0xE35, 0xE49, 0xA, 0xA]"

definition helpText :: string where
  "helpText = utf8
    [0xE2B, 0xE32, 0xE01, 0xE15, 0xE49, 0xE2D, 0xE07, 0xE01, 0xE32, 0xE23, 0xE08, 0xE2D,
     0xE07, 0xE04, 0xE34, 0xE27, 0x20, 0xE43, 0xE2B, 0xE49, 0xE01, 0xE14, 0xE1B, 0xE38,
     0xE48, 0xE21, 0x20, 0x22, 0xE08, 0xE2D, 0xE07, 0xE04, 0xE34, 0xE27, 0x22, 0x20,
     0xE43, 0xE19, 0xE40, 0xE21, 0xE19, 0xE39, 0xE14, 0xE49, 0xE32, 0xE19, 0xE25, 0xE48,
     0xE32, 0xE07, 0x20, 0xE2B, 0xE23, 0xE37, 0xE2D, 0xE1E, 0xE34, 0xE21, 0xE1E, 0xE4C,
     0xE04, 0xE33, 0xE27, 0xE48, 0xE32, 0x20, 0x22, 0xE04, 0xE34, 0xE27, 0xE02, 0xE2D,
     0xE07, 0xE09, 0xE31, 0xE19, 0x22, 0x20, 0xE40, 0xE1E, 0xE37, 0xE48, 0xE2D, 0xE14,
     0xE39, 0xE04, 0xE34, 0xE27, 0xE25, 0xE48, 0xE32, 0xE2A, 0xE38, 0xE14, 0xE02, 0xE2D,
     0xE07, 0xE04, 0xE38, 0xE13]"

definition queue_line :: "booking \<Rightarrow> string" where
  "queue_line b = BULLET @ date b @ AT_TIME @ time b @ '' (#'' @ decimal (bookingId b) @ '')''"

definition queue_text :: "booking list \<Rightarrow> string" where
  "queue_text rows = QUEUE_HEAD @ join [CHR 0x0A] (map queue_line rows)"

definition handleLineEvent :: "env \<Rightarrow> line_event \<Rightarrow> world \<Rightarrow> outcome \<times> world" where
  "handleLineEvent e ev w =
     (if ev_type ev \<noteq> ''message'' \<or> message_type ev \<noteq> ''text'' then (Resolved_null, w)
      else
        (let userId = source_userId ev; txt = trim (message_text ev)
         in if txt = MY_QUEUE then
              (case db_all_by_user e userId w of
                 (None, w1) \<Rightarrow> (Rejected, console_error Db_error w1)
               | (Some rows, w1) \<Rightarrow>
                   if rows = [] then reply_message e (replyToken ev) NO_QUEUE w1
                   else reply_message e (replyToken ev) (queue_text rows) w1)
            else reply_message e (replyToken ev) helpText w))"

section \<open>Reachable states\<close>

text \<open>
  The states the server can be in: it starts with an empty table and no request; a
  booking request arrives; a request in flight moves by one piece; one of the other
  handlers runs.
\<close>

inductive reachable :: "task list \<Rightarrow> world \<Rightarrow> bool" where
  start: "reachable [] init_world"
| arrive: "reachable ts w \<Longrightarrow> reachable (ts @ [book_start rq]) w"
| move: "reachable ts w \<Longrightarrow> step e i (ts, w) = (ts', w') \<Longrightarrow> reachable ts' w'"
| slots: "reachable ts w \<Longrightarrow> get_slots e q w = (res, w') \<Longrightarrow> reachable ts w'"
| mine: "reachable ts w \<Longrightarrow> my_bookings e q w = (res, w') \<Longrightarrow> reachable ts w'"
| chat: "reachable ts w \<Longrightarrow> handleLineEvent e ev w = (out, w') \<Longrightarrow> reachable ts w'"

section \<open>Notions used by the properties\<close>

text \<open>The guard of the booking route lets a body through.\<close>

definition valid_body :: "book_req \<Rightarrow> bool" where
  "valid_body rq =
     (\<not> falsy (req_lineUserId rq) \<and> \<not> falsy (req_name rq) \<and> \<not> falsy (req_date rq)
      \<and> \<not> falsy (req_time rq))"

text \<open>
  The row that the insert of a request writes, given the time stamp and the id, and the
  row that a request served in state \<open>w\<close> at time \<open>now e\<close> adds to the table.
\<close>

definition row_of :: "book_req \<Rightarrow> string \<Rightarrow> nat \<Rightarrow> booking" where
  "row_of rq ts i =
     \<lparr>bookingId = i, lineUserId = or_empty (req_lineUserId rq),
      name = or_empty (req_name rq), date = or_empty (req_date rq),
      time = or_empty (req_time rq), note_col = or_empty (req_note rq),
      status = ''CONFIRMED'', createdAt = ts\<rparr>"

definition committed :: "env \<Rightarrow> book_req \<Rightarrow> world \<Rightarrow> booking" where
  "committed e rq w = row_of rq (now e) (lastID w + 1)"

text \<open>
  The table invariant: every row is CONFIRMED, no id exceeds the counter, ids are
  distinct.
\<close>

definition table_ok :: "world \<Rightarrow> bool" where
  "table_ok w =
     ((\<forall>b \<in> set (bookings w). status b = ''CONFIRMED'' \<and> bookingId b \<le> lastID w)
      \<and> distinct (map bookingId (bookings w)))"

text \<open>
  The rows that the requests in flight have inserted or reported: each is in the table,
  and no two carry the same id.
\<close>

fun task_rows :: "task \<Rightarrow> booking list" where
  "task_rows (Run_done rq ts (Some i)) = [row_of rq ts i]"
| "task_rows (Responded (c, Booking_body b)) = [b]"
| "task_rows t = []"

definition tasks_ok :: "task list \<Rightarrow> world \<Rightarrow> bool" where
  "tasks_ok ts w =
     (set (concat (map task_rows ts)) \<subseteq> set (bookings w)
      \<and> distinct (map bookingId (concat (map task_rows ts))))"

text \<open>
  \<open>countActive\<close> as the specification words it: the number of CONFIRMED bookings of a
  slot. The source counts with \<open>select_count\<close>, which does not look at the status.
\<close>

definition countActive :: "string \<Rightarrow> string \<Rightarrow> booking list \<Rightarrow> nat" where
  "countActive d t rows =
     length (filter (\<lambda>b. date b = d \<and> time b = t \<and> status b = ''CONFIRMED'') rows)"

text \<open>
  An entry of the availability view as the specification words it: \<open>available\<close> is the
  capacity minus \<open>booked\<close>, \<open>isFull\<close> holds when \<open>available\<close> is at most 0.
\<close>

definition slot_entry :: "string \<Rightarrow> nat \<Rightarrow> slot" where
  "slot_entry t n =
     \<lparr>slot_time = t, capacity = CAPACITY_PER_SLOT, booked = n,
      available = int CAPACITY_PER_SLOT - int n,
      isFull = (int CAPACITY_PER_SLOT - int n \<le> 0)\<rparr>"

text \<open>Ascending by (date, time).\<close>

definition by_date_time :: "booking \<Rightarrow> booking \<Rightarrow> bool" where
  "by_date_time a b = (date a < date b \<or> (date a = date b \<and> time a \<le> time b))"

subsection \<open>Example inputs\<close>

definition example_env :: env where
  "example_env = \<lparr>get_err = False, run_err = False, all_err = False, push_err = False,
     reply_err = False, now = ''2024-01-01T08:00:00.000Z''\<rparr>"

definition request_a :: book_req where
  "request_a = \<lparr>req_lineUserId = Some ''U1'', req_name = Some ''Ann'',
     req_date = Some ''2024-01-01'', req_time = Some ''09:00'', req_note = None\<rparr>"

definition request_b :: book_req where
  "request_b = \<lparr>req_lineUserId = Some ''U2'', req_name = Some ''Bob'',
     req_date = Some ''2024-01-01'', req_time = Some ''09:00'', req_note = None\<rparr>"

definition booking_a :: booking where
  "booking_a = \<lparr>bookingId = 1, lineUserId = ''U1'', name = ''Ann'', date = ''2024-01-01'',
     time = ''09:00'', note_col = [], status = ''CONFIRMED'',
     createdAt = ''2024-01-01T08:00:00.000Z''\<rparr>"

definition booking_b :: booking where
  "booking_b = \<lparr>bookingId = 2, lineUserId = ''U2'', name = ''Bob'', date = ''2024-01-01'',
     time = ''09:00'', note_col = [], status = ''CONFIRMED'',
     createdAt = ''2024-01-01T08:00:00.000Z''\<rparr>"

definition world_a :: world where
  "world_a = snd (book example_env request_a init_world)"

definition request_late :: book_req where
  "request_late = \<lparr>req_lineUserId = Some ''U1'', req_name = Some ''Ann'',
     req_date = Some ''2024-01-01'', req_time = Some ''25:00'', req_note = None\<rparr>"

definition booking_late :: booking where
  "booking_late = \<lparr>bookingId = 1, lineUserId = ''U1'', name = ''Ann'', date = ''2024-01-01'',
     time = ''25:00'', note_col = [], status = ''CONFIRMED'',
     createdAt = ''2024-01-01T08:00:00.000Z''\<rparr>"

definition booking_c :: booking where
  "booking_c = \<lparr>bookingId = 1, lineUserId = ''U1'', name = ''Ann'', date = ''2024-01-02'',
     time = ''09:00'', note_col = [], status = ''CONFIRMED'',
     createdAt = ''2023-12-30T08:00:00.000Z''\<rparr>"

definition booking_d :: booking where
  "booking_d = \<lparr>bookingId = 2, lineUserId = ''U1'', name = ''Ann'', date = ''2024-01-01'',
     time = ''10:30'', note_col = [], status = ''CONFIRMED'',
     createdAt = ''2023-12-30T08:01:00.000Z''\<rparr>"

definition booking_e :: booking where
  "booking_e = \<lparr>bookingId = 3, lineUserId = ''U2'', name = ''Bob'', date = ''2024-01-01'',
     time = ''09:30'', note_col = [], status = ''CONFIRMED'',
     createdAt = ''2023-12-30T08:02:00.000Z''\<rparr>"

definition booking_f :: booking where
  "booking_f = \<lparr>bookingId = 4, lineUserId = ''U1'', name = ''Ann'', date = ''2024-01-01'',
     time = ''09:00'', note_col = [], status = ''CONFIRMED'',
     createdAt = ''2023-12-30T08:03:00.000Z''\<rparr>"

definition world_cdef :: world where
  "world_cdef = init_world\<lparr>bookings := [booking_c, booking_d, booking_e, booking_f], lastID := 4\<rparr>"

definition event_my_queue :: line_event where
  "event_my_queue = \<lparr>ev_type = ''message'', message_type = ''text'',
     message_text = '' '' @ MY_QUEUE @ [CHR 0x0A, CHR 0x09], source_userId = ''U1'',
     replyToken = ''token-1''\<rparr>"

section \<open>Auxiliary facts\<close>

lemmas example_defs = example_env_def request_a_def request_b_def booking_a_def booking_b_def

lemmas book_defs = book_def book_start_def book_on_count_def book_on_insert_def
  submit_insert_def db_get_def db_run_def insert_row_def push_message_def console_error_def
  select_count_def falsy_def or_empty_def CAPACITY_PER_SLOT_def init_world_def

lemmas string_eval = utf8_def utf8_cp_def char_of_def bit_Suc_0_iff

subsection \<open>The booking route, case by case\<close>

lemma book_invalid:
  "\<not> valid_body rq \<Longrightarrow>
     book e rq w = ((400, Error_body ''lineUserId, name, date, time are required''), w)"
  by (auto simp: book_def valid_body_def)

lemma book_get_failed:
  "valid_body rq \<Longrightarrow> get_err e \<Longrightarrow>
     book e rq w =
       ((500, Error_body ''db error''),
        console_error Db_error
          (w\<lparr>executed := executed w @
             [Select_count (or_empty (req_date rq)) (or_empty (req_time rq))]\<rparr>))"
  by (simp add: book_def valid_body_def db_get_def)

lemma book_full:
  "valid_body rq \<Longrightarrow> \<not> get_err e \<Longrightarrow>
   CAPACITY_PER_SLOT \<le> select_count (or_empty (req_date rq)) (or_empty (req_time rq)) (bookings w) \<Longrightarrow>
     book e rq w =
       ((409, Error_body ''slot is full''),
        w\<lparr>executed := executed w @
             [Select_count (or_empty (req_date rq)) (or_empty (req_time rq))]\<rparr>)"
  by (simp add: book_def valid_body_def db_get_def)

lemma book_run_failed:
  "valid_body rq \<Longrightarrow> \<not> get_err e \<Longrightarrow> run_err e \<Longrightarrow>
   select_count (or_empty (req_date rq)) (or_empty (req_time rq)) (bookings w) < CAPACITY_PER_SLOT \<Longrightarrow>
     book e rq w =
       ((500, Error_body ''db error''),
        console_error Db_error
          (w\<lparr>executed := executed w @
             [Select_count (or_empty (req_date rq)) (or_empty (req_time rq)),
              Insert (or_empty (req_lineUserId rq)) (or_empty (req_name rq))
                (or_empty (req_date rq)) (or_empty (req_time rq)) (or_empty (req_note rq))
                (now e)]\<rparr>))"
  by (simp add: book_def valid_body_def db_get_def submit_insert_def db_run_def
      book_on_insert_def)

lemma book_created:
  "valid_body rq \<Longrightarrow> \<not> get_err e \<Longrightarrow> \<not> run_err e \<Longrightarrow>
   select_count (or_empty (req_date rq)) (or_empty (req_time rq)) (bookings w) < CAPACITY_PER_SLOT \<Longrightarrow>
     book e rq w =
       ((201, Booking_body (committed e rq w)),
        push_message e (or_empty (req_lineUserId rq))
          (confirmation_text (or_empty (req_name rq)) (or_empty (req_date rq))
             (or_empty (req_time rq)) (lastID w + 1))
          (w\<lparr>executed := executed w @
               [Select_count (or_empty (req_date rq)) (or_empty (req_time rq)),
                Insert (or_empty (req_lineUserId rq)) (or_empty (req_name rq))
                  (or_empty (req_date rq)) (or_empty (req_time rq)) (or_empty (req_note rq))
                  (now e)],
             bookings := bookings w @ [committed e rq w],
             lastID := lastID w + 1\<rparr>))"
  by (simp add: book_def valid_body_def db_get_def submit_insert_def db_run_def
      book_on_insert_def insert_row_def committed_def row_of_def Let_def)

lemma book_cases:
  obtains
    (invalid) "\<not> valid_body rq"
  | (get_failed) "valid_body rq" "get_err e"
  | (full) "valid_body rq" "\<not> get_err e"
      "CAPACITY_PER_SLOT \<le>
         select_count (or_empty (req_date rq)) (or_empty (req_time rq)) (bookings w)"
  | (run_failed) "valid_body rq" "\<not> get_err e" "run_err e"
      "select_count (or_empty (req_date rq)) (or_empty (req_time rq)) (bookings w)
         < CAPACITY_PER_SLOT"
  | (created) "valid_body rq" "\<not> get_err e" "\<not> run_err e"
      "select_count (or_empty (req_date rq)) (or_empty (req_time rq)) (bookings w)
         < CAPACITY_PER_SLOT"
  by (cases "valid_body rq"; cases "get_err e"; cases "run_err e";
      cases "CAPACITY_PER_SLOT \<le>
         select_count (or_empty (req_date rq)) (or_empty (req_time rq)) (bookings w)") auto

lemma committed_push_err [simp]: "committed (e\<lparr>push_err := p\<rparr>) rq w = committed e rq w"
  by (simp add: committed_def row_of_def)

lemma push_message_fields [simp]:
  "bookings (push_message e u txt w) = bookings w"
  "lastID (push_message e u txt w) = lastID w"
  "executed (push_message e u txt w) = executed w"
  "pushed (push_message e u txt w) = pushed w @ [(u, txt)]"
  by (simp_all add: push_message_def console_error_def Let_def)

lemma console_error_fields [simp]:
  "bookings (console_error x w) = bookings w"
  "lastID (console_error x w) = lastID w"
  "executed (console_error x w) = executed w"
  "pushed (console_error x w) = pushed w"
  by (simp_all add: console_error_def)

lemma book_push_irrelevant:
  "fst (book (e\<lparr>push_err := p\<rparr>) rq w) = fst (book e rq w)
   \<and> bookings (snd (book (e\<lparr>push_err := p\<rparr>) rq w)) = bookings (snd (book e rq w))
   \<and> lastID (snd (book (e\<lparr>push_err := p\<rparr>) rq w)) = lastID (snd (book e rq w))
   \<and> pushed (snd (book (e\<lparr>push_err := p\<rparr>) rq w)) = pushed (snd (book e rq w))"
proof (cases rule: book_cases [where rq = rq and e = e and w = w])
  case invalid
  then show ?thesis by (simp add: book_invalid)
next
  case get_failed
  then show ?thesis by (simp add: book_get_failed)
next
  case full
  then show ?thesis by (simp add: book_full)
next
  case run_failed
  then show ?thesis by (simp add: book_run_failed)
next
  case created
  then show ?thesis by (simp add: book_created)
qed

lemma book_201:
  assumes "fst (fst (book e rq w)) = 201"
  shows "valid_body rq \<and> \<not> get_err e \<and> \<not> run_err e
         \<and> select_count (or_empty (req_date rq)) (or_empty (req_time rq)) (bookings w)
             < CAPACITY_PER_SLOT"
proof (cases rule: book_cases [where rq = rq and e = e and w = w])
  case invalid
  with assms show ?thesis by (simp add: book_invalid)
next
  case get_failed
  with assms show ?thesis by (simp add: book_get_failed)
next
  case full
  with assms show ?thesis by (simp add: book_full)
next
  case run_failed
  with assms show ?thesis by (simp add: book_run_failed)
next
  case created
  then show ?thesis by simp
qed

lemma book_pushes_only_created:
  assumes "pushed (snd (book e rq w)) \<noteq> pushed w"
  shows "fst (fst (book e rq w)) = 201"
proof (cases rule: book_cases [where rq = rq and e = e and w = w])
  case invalid
  with assms show ?thesis by (simp add: book_invalid)
next
  case get_failed
  with assms show ?thesis by (simp add: book_get_failed)
next
  case full
  with assms show ?thesis by (simp add: book_full)
next
  case run_failed
  with assms show ?thesis by (simp add: book_run_failed)
next
  case created
  then show ?thesis by (simp add: book_created)
qed

lemma select_count_snoc:
  "select_count d t (rows @ [b]) =
     select_count d t rows + (if date b = d \<and> time b = t then 1 else 0)"
  by (simp add: select_count_def)

lemma book_keeps_capacity:
  assumes "select_count d t (bookings w) \<le> CAPACITY_PER_SLOT"
  shows "select_count d t (bookings (snd (book e rq w))) \<le> CAPACITY_PER_SLOT"
proof (cases rule: book_cases [where rq = rq and e = e and w = w])
  case invalid
  with assms show ?thesis by (simp add: book_invalid)
next
  case get_failed
  with assms show ?thesis by (simp add: book_get_failed)
next
  case full
  with assms show ?thesis by (simp add: book_full)
next
  case run_failed
  with assms show ?thesis by (simp add: book_run_failed)
next
  case created
  with assms show ?thesis
    by (auto simp: book_created select_count_snoc committed_def row_of_def)
qed

subsection \<open>Serving a request alone is a run of its pieces\<close>

lemma step_last:
  "step e (length ts) (ts @ [t], w) = (ts @ [fst (advance e t w)], snd (advance e t w))"
  by (simp add: step_def split: prod.splits)

lemma advance4_book:
  "advance e (fst (advance e (fst (advance e (fst (advance e (book_start rq) w))
       (snd (advance e (book_start rq) w))))
       (snd (advance e (fst (advance e (book_start rq) w))
       (snd (advance e (book_start rq) w))))))
     (snd (advance e (fst (advance e (fst (advance e (book_start rq) w))
       (snd (advance e (book_start rq) w))))
       (snd (advance e (fst (advance e (book_start rq) w))
       (snd (advance e (book_start rq) w))))))
   = (Responded (fst (book e rq w)), snd (book e rq w))"
  by (simp add: book_start_def book_def book_on_count_def db_get_def
      split: prod.splits option.splits)

lemma run_book:
  "run e [length ts, length ts, length ts, length ts] (ts @ [book_start rq], w) =
     (ts @ [Responded (fst (book e rq w))], snd (book e rq w))"
  by (simp add: run_def step_last advance4_book)

subsection \<open>The table invariant\<close>

lemma table_ok_insert: "table_ok w \<Longrightarrow> table_ok (insert_row u n d t nt ts w)"
  by (fastforce simp: table_ok_def insert_row_def)

lemma table_ok_advance:
  assumes "table_ok w" and "advance e t w = (t', w')"
  shows "table_ok w'"
proof (cases t)
  case (Get_pending rq)
  with assms show ?thesis
    by (auto simp: table_ok_def db_get_def Let_def split: if_splits)
next
  case (Get_done rq r)
  with assms show ?thesis
    by (auto simp: table_ok_def book_on_count_def console_error_def
        split: option.splits if_splits)
next
  case (Run_pending rq ts)
  with assms show ?thesis
    using table_ok_insert [of w]
    by (auto simp: submit_insert_def db_run_def Let_def table_ok_def insert_row_def split: if_splits)
next
  case (Run_done rq ts r)
  with assms show ?thesis
    by (auto simp: table_ok_def book_on_insert_def console_error_def push_message_def Let_def
        split: option.splits if_splits)
next
  case (Responded res)
  with assms show ?thesis by auto
qed

lemma reachable_step: "reachable ts w \<Longrightarrow> reachable (fst (step e i (ts, w))) (snd (step e i (ts, w)))"
  by (rule reachable.move [where e = e and i = i]) simp_all

lemma reachable_run:
  "reachable ts w \<Longrightarrow> reachable (fst (run e sched (ts, w))) (snd (run e sched (ts, w)))"
proof (induction sched rule: rev_induct)
  case Nil
  then show ?case by (simp add: run_def)
next
  case (snoc i sched)
  obtain ts1 w1 where r: "run e sched (ts, w) = (ts1, w1)" by (cases "run e sched (ts, w)")
  with snoc have "reachable ts1 w1" by simp
  then have "reachable (fst (step e i (ts1, w1))) (snd (step e i (ts1, w1)))"
    by (rule reachable_step)
  moreover have "run e (sched @ [i]) (ts, w) = step e i (ts1, w1)"
    using r by (simp add: run_def)
  ultimately show ?case by simp
qed

lemma reachable_book:
  assumes "reachable ts w"
  shows "reachable (ts @ [Responded (fst (book e rq w))]) (snd (book e rq w))"
proof -
  have "reachable (ts @ [book_start rq]) w" using assms by (rule reachable.arrive)
  from reachable_run [OF this, of e "[length ts, length ts, length ts, length ts]"]
  show ?thesis by (simp add: run_book)
qed

lemma table_ok_reachable: "reachable ts w \<Longrightarrow> table_ok w"
proof (induction rule: reachable.induct)
  case start
  then show ?case by (simp add: table_ok_def init_world_def)
next
  case (arrive ts w rq)
  then show ?case by simp
next
  case (move ts w e i ts' w')
  then show ?case
    by (auto simp: step_def split: if_splits prod.splits dest: table_ok_advance)
next
  case (slots ts w e q res w')
  then show ?case
    by (auto simp: get_slots_def db_all_by_date_def console_error_def table_ok_def Let_def
        split: if_splits)
next
  case (mine ts w e q res w')
  then show ?case
    by (auto simp: my_bookings_def db_all_by_user_def console_error_def table_ok_def Let_def
        split: if_splits)
next
  case (chat ts w e ev out w')
  then show ?case
    by (auto simp: handleLineEvent_def db_all_by_user_def console_error_def reply_message_def
        table_ok_def Let_def split: if_splits)
qed

lemma reachable_booking_a:
  "reachable [Responded (201, Booking_body booking_a)]
     (snd (book example_env request_a init_world))"
proof -
  have "fst (book example_env request_a init_world) = (201, Booking_body booking_a)"
    by (simp add: example_defs book_defs Let_def)
  with reachable_book [OF reachable.start, of example_env request_a] show ?thesis by simp
qed

lemma bookings_world_a: "bookings world_a = [booking_a]"
  by (simp add: world_a_def example_defs book_defs Let_def)

lemma reachable_world_a: "reachable [Responded (201, Booking_body booking_a)] world_a"
  unfolding world_a_def by (rule reachable_booking_a)

lemma reachable_two_requests:
  "reachable [book_start request_a, book_start request_b] init_world"
  using reachable.arrive [OF reachable.arrive [OF reachable.start, of request_a], of request_b]
  by simp

subsection \<open>Responses of requests in flight together\<close>

lemma task_rows_book_start: "task_rows (book_start rq) = []"
  by (simp add: book_start_def)

lemma advance_cases:
  assumes "advance e t w = (t', w')"
  obtains
    (same) "task_rows t' = task_rows t" "bookings w' = bookings w" "lastID w' = lastID w"
  | (inserted) rq ts where "t = Run_pending rq ts" "t' = Run_done rq ts (Some (lastID w + 1))"
      "bookings w' = bookings w @ [row_of rq ts (lastID w + 1)]" "lastID w' = lastID w + 1"
proof (cases t)
  case (Get_pending rq)
  with assms have "task_rows t' = task_rows t" "bookings w' = bookings w" "lastID w' = lastID w"
    by (auto simp: db_get_def Let_def split: if_splits)
  then show ?thesis by (rule same)
next
  case (Get_done rq r)
  with assms have "task_rows t' = task_rows t" "bookings w' = bookings w" "lastID w' = lastID w"
    by (auto simp: book_on_count_def split: option.splits if_splits)
  then show ?thesis by (rule same)
next
  case (Run_pending rq ts)
  show ?thesis
  proof (cases "run_err e")
    case True
    with Run_pending assms
    have "task_rows t' = task_rows t" "bookings w' = bookings w" "lastID w' = lastID w"
      by (auto simp: submit_insert_def db_run_def Let_def)
    then show ?thesis by (rule same)
  next
    case False
    with Run_pending assms
    have "t' = Run_done rq ts (Some (lastID w + 1))"
      "bookings w' = bookings w @ [row_of rq ts (lastID w + 1)]" "lastID w' = lastID w + 1"
      by (auto simp: submit_insert_def db_run_def Let_def insert_row_def row_of_def)
    with Run_pending show ?thesis by (intro inserted)
  qed
next
  case (Run_done rq ts r)
  with assms have "task_rows t' = task_rows t" "bookings w' = bookings w" "lastID w' = lastID w"
    by (auto simp: book_on_insert_def Let_def row_of_def split: option.splits)
  then show ?thesis by (rule same)
next
  case (Responded res)
  with assms have "task_rows t' = task_rows t" "bookings w' = bookings w" "lastID w' = lastID w"
    by auto
  then show ?thesis by (rule same)
qed

lemma tasks_ok_update:
  assumes "i < length ts" and "task_rows t' = task_rows (ts ! i)"
  shows "concat (map task_rows (ts[i := t'])) = concat (map task_rows ts)"
proof -
  have "map task_rows (ts[i := t']) = (map task_rows ts)[i := task_rows (ts ! i)]"
    using assms by (simp add: map_update)
  also have "\<dots> = map task_rows ts" using assms(1) by (simp add: list_update_same_conv)
  finally show ?thesis by simp
qed

lemma rows_update_pending:
  assumes "i < length ts" and "task_rows (ts ! i) = []"
  obtains before after where
    "concat (map task_rows ts) = before @ after"
    "concat (map task_rows (ts[i := t'])) = before @ task_rows t' @ after"
proof
  have ts: "ts = take i ts @ ts ! i # drop (Suc i) ts"
    using assms(1) by (simp add: id_take_nth_drop)
  have up: "ts[i := t'] = take i ts @ t' # drop (Suc i) ts"
    using assms(1) by (simp add: upd_conv_take_nth_drop)
  show "concat (map task_rows ts) =
      concat (map task_rows (take i ts)) @ concat (map task_rows (drop (Suc i) ts))"
    by (subst ts) (simp add: assms(2))
  show "concat (map task_rows (ts[i := t'])) =
      concat (map task_rows (take i ts)) @ task_rows t' @ concat (map task_rows (drop (Suc i) ts))"
    by (subst up) simp
qed

lemma tasks_ok_advance:
  assumes ok: "tasks_ok ts w" and tab: "table_ok w" and i: "i < length ts"
    and adv: "advance e (ts ! i) w = (t', w')"
  shows "tasks_ok (ts[i := t']) w'"
  using adv
proof (cases rule: advance_cases)
  case same
  with ok i show ?thesis by (simp add: tasks_ok_def tasks_ok_update)
next
  case (inserted rq tm)
  let ?r = "row_of rq tm (lastID w + 1)"
  have p: "task_rows (ts ! i) = []" using inserted by simp
  have n: "task_rows t' = [?r]" using inserted by simp
  from rows_update_pending [OF i p, of t'] obtain before after where
    c: "concat (map task_rows ts) = before @ after"
    and c': "concat (map task_rows (ts[i := t'])) = before @ task_rows t' @ after"
    by blast
  have old: "\<forall>b \<in> set (before @ after). b \<in> set (bookings w) \<and> bookingId b \<le> lastID w"
    using ok tab unfolding c [symmetric] by (auto simp: tasks_ok_def table_ok_def)
  have d: "distinct (map bookingId (before @ after))"
    using ok unfolding c [symmetric] by (simp add: tasks_ok_def)
  have r: "bookingId ?r = lastID w + 1" by (simp add: row_of_def)
  have "set (before @ [?r] @ after) \<subseteq> set (bookings w')"
    using old inserted(3) by auto
  moreover have "\<forall>b \<in> set (before @ after). bookingId b \<noteq> bookingId ?r"
    using old r by fastforce
  then have "distinct (map bookingId (before @ [?r] @ after))"
    using d by auto
  ultimately show ?thesis unfolding tasks_ok_def c' n by simp
qed

lemma tasks_ok_reachable: "reachable ts w \<Longrightarrow> tasks_ok ts w"
proof (induction rule: reachable.induct)
  case start
  then show ?case by (simp add: tasks_ok_def)
next
  case (arrive ts w rq)
  then show ?case by (simp add: tasks_ok_def task_rows_book_start)
next
  case (move ts w e i ts' w')
  show ?case
  proof (cases "i < length ts")
    case True
    obtain t1 w1 where a: "advance e (ts ! i) w = (t1, w1)" by (cases "advance e (ts ! i) w")
    with True move.hyps(2) have "ts' = ts[i := t1]" "w' = w1" by (simp_all add: step_def)
    with tasks_ok_advance [OF move.IH table_ok_reachable [OF move.hyps(1)] True a]
    show ?thesis by simp
  next
    case False
    with move show ?thesis by (simp add: step_def)
  qed
next
  case (slots ts w e q res w')
  then show ?case
    by (auto simp: get_slots_def db_all_by_date_def console_error_def tasks_ok_def Let_def
        split: if_splits)
next
  case (mine ts w e q res w')
  then show ?case
    by (auto simp: my_bookings_def db_all_by_user_def console_error_def tasks_ok_def Let_def
        split: if_splits)
next
  case (chat ts w e ev out w')
  then show ?case
    by (auto simp: handleLineEvent_def db_all_by_user_def console_error_def reply_message_def
        tasks_ok_def Let_def split: if_splits)
qed

lemma distinct_concat_nth:
  assumes "distinct (map f (concat xss))" and "i < j" and "j < length xss"
    and "x \<in> set (xss ! i)" and "y \<in> set (xss ! j)"
  shows "f x \<noteq> f y"
proof -
  have d: "xss = take i xss @ xss ! i # drop (Suc i) xss"
    using assms(2,3) by (simp add: id_take_nth_drop)
  have "xss ! j \<in> set (drop (Suc i) xss)"
    using assms(2,3) by (auto simp: set_conv_nth intro!: exI [of _ "j - Suc i"])
  with assms(5) have y: "y \<in> set (concat (drop (Suc i) xss))" by auto
  have "distinct (map f (concat (take i xss) @ xss ! i @ concat (drop (Suc i) xss)))"
    using assms(1) by (subst (asm) d) simp
  with assms(4) y show ?thesis by auto
qed

lemma created_responses_are_rows:
  assumes "reachable ts w" and "i < length ts" and "ts ! i = Responded (201, Booking_body b)"
  shows "b \<in> set (bookings w) \<and> status b = ''CONFIRMED''
         \<and> (\<forall>j b'. j < length ts \<and> j \<noteq> i \<and> ts ! j = Responded (201, Booking_body b') \<longrightarrow>
               bookingId b' \<noteq> bookingId b)"
proof -
  have ok: "tasks_ok ts w" using assms(1) by (rule tasks_ok_reachable)
  have tab: "table_ok w" using assms(1) by (rule table_ok_reachable)
  have "b \<in> set (task_rows (ts ! i))" using assms(3) by simp
  with assms(2) have "b \<in> set (concat (map task_rows ts))" by (auto intro: nth_mem)
  with ok have b: "b \<in> set (bookings w)" by (auto simp: tasks_ok_def)
  with tab have s: "status b = ''CONFIRMED''" by (simp add: table_ok_def)
  have d: "distinct (map bookingId (concat (map task_rows ts)))"
    using ok by (simp add: tasks_ok_def)
  have "bookingId b' \<noteq> bookingId b"
    if j: "j < length ts" "j \<noteq> i" "ts ! j = Responded (201, Booking_body b')" for j b'
  proof (cases "i < j")
    case True
    from distinct_concat_nth [OF d True, of b b'] j assms(2,3) show ?thesis by simp
  next
    case False
    with j(2) have "j < i" by simp
    from distinct_concat_nth [OF d this, of b' b] j assms(2,3) show ?thesis by simp
  qed
  with b s show ?thesis by blast
qed

subsection \<open>The availability view\<close>

lemma foldl_set_prop:
  "foldl set_prop m (map (\<lambda>t. (t, f t)) ks) k =
     (if k \<in> set ks \<and> k \<noteq> ''__proto__'' then Some (f k) else m k)"
  by (induction ks arbitrary: m) (auto simp: set_prop_def)

lemma select_count_by_date_eq:
  "select_count_by_date d rows =
     map (\<lambda>t. (t, select_count d t rows))
       (sort (remdups (map time (filter (\<lambda>b. date b = d) rows))))"
  by (simp add: select_count_by_date_def select_count_def Let_def conj_commute)

lemma select_count_absent:
  "t \<notin> time ` {b \<in> set rows. date b = d} \<Longrightarrow> select_count d t rows = 0"
  by (auto simp: select_count_def filter_empty_conv)

lemma slot_of_booked:
  assumes "t \<noteq> ''__proto__''"
  shows "slot_of (foldl set_prop Map.empty (select_count_by_date d rows)) t =
           slot_entry t (select_count d t rows)"
proof (cases "t \<in> time ` {b \<in> set rows. date b = d}")
  case True
  with assms show ?thesis
    by (simp add: select_count_by_date_eq foldl_set_prop slot_of_def slot_entry_def Let_def)
next
  case False
  then have "select_count d t rows = 0" by (rule select_count_absent)
  with False assms show ?thesis
    by (simp add: select_count_by_date_eq foldl_set_prop slot_of_def slot_entry_def Let_def)
qed

lemma no_proto_slot: "t \<in> set TIME_SLOTS \<Longrightarrow> t \<noteq> ''__proto__''"
  by (auto simp: TIME_SLOTS_def)

lemma get_slots_view:
  assumes "d \<noteq> []" and "\<not> all_err e"
  shows "get_slots e (Some d) w =
           ((200, Slots_body d (map (\<lambda>t. slot_entry t (select_count d t (bookings w))) TIME_SLOTS)),
            w\<lparr>executed := executed w @ [Select_count_by_date d]\<rparr>)"
  using assms
  by (simp add: get_slots_def falsy_def or_empty_def db_all_by_date_def Let_def
      slot_of_booked no_proto_slot cong: map_cong)

text \<open>With one booking more than the capacity, as after a race, \<open>available\<close> is negative.\<close>

lemma availability_below_zero:
  "fst (get_slots example_env (Some ''2024-01-01'')
          (init_world\<lparr>bookings := [booking_a, booking_b], lastID := 2\<rparr>)) =
     (200, Slots_body ''2024-01-01''
        (\<lparr>slot_time = ''09:00'', capacity = 1, booked = 2, available = - 1, isFull = True\<rparr> #
         map (\<lambda>t. \<lparr>slot_time = t, capacity = 1, booked = 0, available = 1, isFull = False\<rparr>)
           (tl TIME_SLOTS)))"
  by (simp add: get_slots_view example_env_def slot_entry_def select_count_def booking_a_def
      booking_b_def init_world_def TIME_SLOTS_def CAPACITY_PER_SLOT_def)

lemma select_count_confirmed:
  "\<forall>b \<in> set rows. status b = ''CONFIRMED'' \<Longrightarrow> select_count d t rows = countActive d t rows"
  unfolding select_count_def countActive_def
  by (rule arg_cong [where f = length], rule filter_cong) auto

lemma select_count_catalog:
  "t \<in> set TIME_SLOTS \<Longrightarrow>
     select_count d t (filter (\<lambda>b. time b \<in> set TIME_SLOTS) rows) = select_count d t rows"
  unfolding select_count_def filter_filter
  by (rule arg_cong [where f = length], rule filter_cong) auto

lemma select_count_append_other:
  "time b \<noteq> t \<Longrightarrow> select_count d t (rows @ [b]) = select_count d t rows"
  by (simp add: select_count_def)

subsection \<open>The listing of a user\<close>

lemma string_order_examples:
  "''2024-01-01'' < ''2024-01-02''" "''09:30'' < ''10:00''" "''9:00'' > ''10:00''"
  "''09'' < ''09:00''" "[CHR 0x7A] < [CHR 0xE0]"
  by code_simp+

lemma select_by_user_mset:
  "mset (select_by_user u rows) = mset (filter (\<lambda>b. lineUserId b = u) rows)"
  by (simp add: select_by_user_def)

lemma select_by_user_sorted:
  "sorted (map (\<lambda>b. (date b, time b)) (select_by_user u rows))"
  by (simp add: select_by_user_def)

lemma mset_keys_cong:
  "mset xs = mset ys \<Longrightarrow> mset (map f xs) = mset (map f ys)"
  by (metis mset_map)

lemma select_by_user_keys:
  "map (\<lambda>b. (date b, time b)) (select_by_user u rows) =
     sort (map (\<lambda>b. (date b, time b)) (filter (\<lambda>b. lineUserId b = u) rows))"
proof -
  have "mset (map (\<lambda>b. (date b, time b)) (select_by_user u rows)) =
        mset (map (\<lambda>b. (date b, time b)) (filter (\<lambda>b. lineUserId b = u) rows))"
    by (rule mset_keys_cong) (rule select_by_user_mset)
  from properties_for_sort [OF this select_by_user_sorted] show ?thesis by simp
qed

lemma select_by_user_perm:
  assumes "mset rows' = mset rows"
  shows "map (\<lambda>b. (date b, time b)) (select_by_user u rows') =
         map (\<lambda>b. (date b, time b)) (select_by_user u rows)"
proof -
  have "mset (filter (\<lambda>b. lineUserId b = u) rows') = mset (filter (\<lambda>b. lineUserId b = u) rows)"
    using assms by (simp only: mset_filter)
  then have "mset (map (\<lambda>b. (date b, time b)) (filter (\<lambda>b. lineUserId b = u) rows')) =
        mset (map (\<lambda>b. (date b, time b)) (filter (\<lambda>b. lineUserId b = u) rows))"
    by (rule mset_keys_cong)
  then have "mset (sort (map (\<lambda>b. (date b, time b)) (filter (\<lambda>b. lineUserId b = u) rows'))) =
        mset (map (\<lambda>b. (date b, time b)) (filter (\<lambda>b. lineUserId b = u) rows))"
    by (simp only: mset_sort)
  from properties_for_sort [OF this sorted_sort]
  show ?thesis by (simp only: select_by_user_keys)
qed

lemma select_by_user_ordered: "sorted_wrt by_date_time (select_by_user u rows)"
proof -
  have "sorted_wrt (\<lambda>a b. (date a, time a) \<le> (date b, time b)) (select_by_user u rows)"
    using select_by_user_sorted [of u rows] by (simp add: sorted_map)
  moreover have "\<And>a b :: booking. (date a, time a) \<le> (date b, time b) \<Longrightarrow> by_date_time a b"
    by (auto simp: by_date_time_def less_eq_prod_def)
  ultimately show ?thesis by (rule sorted_wrt_mono_rel [rotated]) auto
qed

lemma my_bookings_rows:
  "u \<noteq> [] \<Longrightarrow> \<not> all_err e \<Longrightarrow>
     my_bookings e (Some u) w =
       ((200, Rows_body (select_by_user u (bookings w))),
        w\<lparr>executed := executed w @ [Select_by_user u]\<rparr>)"
  by (simp add: my_bookings_def falsy_def or_empty_def db_all_by_user_def Let_def)

lemma rows_cdef:
  "select_by_user ''U1'' [booking_c, booking_d, booking_e, booking_f] =
     [booking_f, booking_d, booking_c]"
  by code_simp

subsection \<open>The chat command\<close>

lemma WHITE_SPACE_bytes:
  "WHITE_SPACE =
     [[CHR 0x09], [CHR 0x0A], [CHR 0x0B], [CHR 0x0C], [CHR 0x0D], [CHR 0x20],
      [CHR 0xC2, CHR 0xA0], [CHR 0xE1, CHR 0x9A, CHR 0x80],
      [CHR 0xE2, CHR 0x80, CHR 0x80], [CHR 0xE2, CHR 0x80, CHR 0x81],
      [CHR 0xE2, CHR 0x80, CHR 0x82], [CHR 0xE2, CHR 0x80, CHR 0x83],
      [CHR 0xE2, CHR 0x80, CHR 0x84], [CHR 0xE2, CHR 0x80, CHR 0x85],
      [CHR 0xE2, CHR 0x80, CHR 0x86], [CHR 0xE2, CHR 0x80, CHR 0x87],
      [CHR 0xE2, CHR 0x80, CHR 0x88], [CHR 0xE2, CHR 0x80, CHR 0x89],
      [CHR 0xE2, CHR 0x80, CHR 0x8A], [CHR 0xE2, CHR 0x80, CHR 0xA8],
      [CHR 0xE2, CHR 0x80, CHR 0xA9], [CHR 0xE2, CHR 0x80, CHR 0xAF],
      [CHR 0xE2, CHR 0x81, CHR 0x9F], [CHR 0xE3, CHR 0x80, CHR 0x80],
      [CHR 0xEF, CHR 0xBB, CHR 0xBF]]"
  by (simp add: WHITE_SPACE_def string_eval)

lemma MY_QUEUE_bytes:
  "MY_QUEUE =
     [CHR 0xE0, CHR 0xB8, CHR 0x84, CHR 0xE0, CHR 0xB8, CHR 0xB4, CHR 0xE0, CHR 0xB8, CHR 0xA7,
      CHR 0xE0, CHR 0xB8, CHR 0x82, CHR 0xE0, CHR 0xB8, CHR 0xAD, CHR 0xE0, CHR 0xB8, CHR 0x87,
      CHR 0xE0, CHR 0xB8, CHR 0x89, CHR 0xE0, CHR 0xB8, CHR 0xB1, CHR 0xE0, CHR 0xB8, CHR 0x99]"
  by (simp add: MY_QUEUE_def string_eval)

lemma trim_padded: "trim ('' '' @ MY_QUEUE @ [CHR 0x0A, CHR 0x09]) = MY_QUEUE"
  by (simp add: trim_def strip.simps MY_QUEUE_bytes WHITE_SPACE_bytes starts_with_def)

lemma handleLineEvent_my_queue:
  assumes "ev_type ev = ''message''" and "message_type ev = ''text''"
    and "trim (message_text ev) = MY_QUEUE" and "\<not> all_err e"
  shows "handleLineEvent e ev w =
           reply_message e (replyToken ev)
             (if select_by_user (source_userId ev) (bookings w) = [] then NO_QUEUE
              else queue_text (select_by_user (source_userId ev) (bookings w)))
             (w\<lparr>executed := executed w @ [Select_by_user (source_userId ev)]\<rparr>)"
  using assms by (simp add: handleLineEvent_def db_all_by_user_def Let_def)

section \<open>The claims\<close>

text \<open>
  Two requests for the same free slot, one served after the other: the first is
  committed, the second finds the slot full.
\<close>

lemma sequential_second_is_full:
  "fst (run example_env [0, 0, 0, 0, 1, 1, 1, 1]
          ([book_start request_a, book_start request_b], init_world)) =
     [Responded (201, Booking_body booking_a), Responded (409, Error_body ''slot is full'')]"
  by (simp add: run_def step_def example_defs book_defs Let_def)

text \<open>
  C1 (no overbooking under concurrency). The claim asks that the capacity check and the
  insert of a reservation are one atomic unit, so that two concurrent requests from
  distinct users for a slot of capacity 1 end with one booking, one SlotFull and a count
  of 1. In the source the count query and the insert are two statements, the insert
  submitted from the callback of the count query. With both requests in flight and their
  pieces taken in turn, both count queries run before either insert: both read 0, both
  requests are answered 201, and slot 09:00 of 2024-01-01 holds two bookings against a
  capacity of 1. The state is one the server reaches. Served one after the other the
  bound is kept (\<open>book_keeps_capacity\<close>).
\<close>

theorem race_overbooks:
  "reachable
     (fst (run example_env [0, 1, 0, 1, 0, 1, 0, 1]
             ([book_start request_a, book_start request_b], init_world)))
     (snd (run example_env [0, 1, 0, 1, 0, 1, 0, 1]
             ([book_start request_a, book_start request_b], init_world)))
   \<and> fst (run example_env [0, 1, 0, 1, 0, 1, 0, 1]
          ([book_start request_a, book_start request_b], init_world)) =
     [Responded (201, Booking_body booking_a), Responded (201, Booking_body booking_b)]
   \<and> bookings (snd (run example_env [0, 1, 0, 1, 0, 1, 0, 1]
          ([book_start request_a, book_start request_b], init_world))) = [booking_a, booking_b]
   \<and> select_count ''2024-01-01'' ''09:00'' [booking_a, booking_b] = 2
   \<and> CAPACITY_PER_SLOT = 1"
proof -
  have "reachable
     (fst (run example_env [0, 1, 0, 1, 0, 1, 0, 1]
             ([book_start request_a, book_start request_b], init_world)))
     (snd (run example_env [0, 1, 0, 1, 0, 1, 0, 1]
             ([book_start request_a, book_start request_b], init_world)))"
    using reachable_two_requests by (rule reachable_run)
  moreover have "fst (run example_env [0, 1, 0, 1, 0, 1, 0, 1]
          ([book_start request_a, book_start request_b], init_world)) =
     [Responded (201, Booking_body booking_a), Responded (201, Booking_body booking_b)]"
    by (simp add: run_def step_def example_defs book_defs Let_def)
  moreover have "bookings (snd (run example_env [0, 1, 0, 1, 0, 1, 0, 1]
          ([book_start request_a, book_start request_b], init_world))) = [booking_a, booking_b]"
    by (simp add: run_def step_def example_defs book_defs Let_def)
  moreover have "select_count ''2024-01-01'' ''09:00'' [booking_a, booking_b] = 2"
    by (simp add: select_count_def booking_a_def booking_b_def)
  moreover have "CAPACITY_PER_SLOT = 1" by (simp add: CAPACITY_PER_SLOT_def)
  ultimately show ?thesis by blast
qed

text \<open>
  C2 (catalog membership of time). The claim says that a booking request whose time is
  not a label of \<open>TIME_SLOTS\<close> fails and commits nothing. The route never compares the
  time with \<open>TIME_SLOTS\<close>: on an empty table a request for 25:00 is answered 201 and
  its row is stored.
\<close>

theorem out_of_catalog_time_counterexample:
  "or_empty (req_time request_late) \<notin> set TIME_SLOTS
   \<and> fst (book example_env request_late init_world) = (201, Booking_body booking_late)
   \<and> bookings (snd (book example_env request_late init_world)) = [booking_late]
   \<and> time booking_late = ''25:00''"
  by (simp add: request_late_def booking_late_def example_defs book_defs Let_def TIME_SLOTS_def)

text \<open>
  C2, as amended. For a booking request whose time is not a label of \<open>TIME_SLOTS\<close>:
  a missing or empty time is answered 400 and the state stays as it was; with the four
  required fields non-empty the request is treated like any other, answered 409 with the
  table unchanged when the bookings counted for its (date, time) have reached the
  capacity, and, when they have not and neither statement fails, answered 201 with its
  row, carrying that time, appended to the table.
\<close>

theorem out_of_catalog_time:
  assumes "or_empty (req_time rq) \<notin> set TIME_SLOTS"
  shows "(falsy (req_time rq) \<longrightarrow>
            book e rq w = ((400, Error_body ''lineUserId, name, date, time are required''), w))
       \<and> (valid_body rq \<and> \<not> get_err e
            \<and> CAPACITY_PER_SLOT \<le>
                select_count (or_empty (req_date rq)) (or_empty (req_time rq)) (bookings w) \<longrightarrow>
            fst (book e rq w) = (409, Error_body ''slot is full'')
            \<and> bookings (snd (book e rq w)) = bookings w)
       \<and> (valid_body rq \<and> \<not> get_err e \<and> \<not> run_err e
            \<and> select_count (or_empty (req_date rq)) (or_empty (req_time rq)) (bookings w)
                < CAPACITY_PER_SLOT \<longrightarrow>
            fst (book e rq w) = (201, Booking_body (committed e rq w))
            \<and> bookings (snd (book e rq w)) = bookings w @ [committed e rq w]
            \<and> time (committed e rq w) = or_empty (req_time rq))"
proof (intro conjI impI)
  assume "falsy (req_time rq)"
  then have "\<not> valid_body rq" by (simp add: valid_body_def)
  then show "book e rq w = ((400, Error_body ''lineUserId, name, date, time are required''), w)"
    by (rule book_invalid)
next
  assume a: "valid_body rq \<and> \<not> get_err e
     \<and> CAPACITY_PER_SLOT \<le>
         select_count (or_empty (req_date rq)) (or_empty (req_time rq)) (bookings w)"
  then show "fst (book e rq w) = (409, Error_body ''slot is full'')"
    by (simp add: book_full)
  from a show "bookings (snd (book e rq w)) = bookings w"
    by (simp add: book_full)
next
  assume a: "valid_body rq \<and> \<not> get_err e \<and> \<not> run_err e
     \<and> select_count (or_empty (req_date rq)) (or_empty (req_time rq)) (bookings w)
         < CAPACITY_PER_SLOT"
  then show "fst (book e rq w) = (201, Booking_body (committed e rq w))"
    by (simp add: book_created)
  from a show "bookings (snd (book e rq w)) = bookings w @ [committed e rq w]"
    by (simp add: book_created push_message_def console_error_def Let_def)
  show "time (committed e rq w) = or_empty (req_time rq)"
    by (simp add: committed_def row_of_def)
qed

theorem out_of_catalog_time_witness:
  "or_empty (req_time request_late) \<notin> set TIME_SLOTS
   \<and> valid_body request_late \<and> \<not> get_err example_env \<and> \<not> run_err example_env
   \<and> select_count ''2024-01-01'' ''25:00'' (bookings init_world) < CAPACITY_PER_SLOT
   \<and> fst (book example_env request_late init_world) =
        (201, Booking_body (committed example_env request_late init_world))
   \<and> bookings (snd (book example_env request_late init_world)) =
        [committed example_env request_late init_world]
   \<and> time (committed example_env request_late init_world) = ''25:00''"
  using out_of_catalog_time [of request_late example_env init_world]
  by (simp add: request_late_def example_env_def valid_body_def falsy_def or_empty_def
      select_count_def CAPACITY_PER_SLOT_def init_world_def TIME_SLOTS_def)

text \<open>
  C3 (SlotFull, one request at a time). A booking request with the four required fields
  non-empty, served while the bookings counted for its (date, time) have reached the
  capacity, is answered 409 \<^verbatim>\<open>slot is full\<close>; no row is inserted, the id counter
  stays, nothing is pushed, and the count query is the only statement executed. The
  count is the one the query returns: a query that fails is answered 500
  (\<open>book_get_failed\<close>), with the table unchanged as well.
\<close>

theorem slot_full_no_effect:
  assumes "valid_body rq" and "\<not> get_err e"
    and "CAPACITY_PER_SLOT \<le>
           select_count (or_empty (req_date rq)) (or_empty (req_time rq)) (bookings w)"
  shows "fst (book e rq w) = (409, Error_body ''slot is full'')
         \<and> bookings (snd (book e rq w)) = bookings w
         \<and> lastID (snd (book e rq w)) = lastID w
         \<and> pushed (snd (book e rq w)) = pushed w
         \<and> executed (snd (book e rq w)) =
             executed w @ [Select_count (or_empty (req_date rq)) (or_empty (req_time rq))]"
  using assms by (simp add: book_full)

theorem slot_full_no_effect_witness:
  "valid_body request_b \<and> \<not> get_err example_env
   \<and> CAPACITY_PER_SLOT \<le> select_count ''2024-01-01'' ''09:00'' [booking_a]
   \<and> fst (book example_env request_b (init_world\<lparr>bookings := [booking_a], lastID := 1\<rparr>)) =
        (409, Error_body ''slot is full'')
   \<and> bookings (snd (book example_env request_b
        (init_world\<lparr>bookings := [booking_a], lastID := 1\<rparr>))) = [booking_a]"
  using slot_full_no_effect
    [of request_b example_env "init_world\<lparr>bookings := [booking_a], lastID := 1\<rparr>"]
  by (simp add: valid_body_def example_defs falsy_def or_empty_def select_count_def
      CAPACITY_PER_SLOT_def init_world_def)

text \<open>
  C4 (availability formula). For a date given (a missing or empty one is answered 400)
  and a grouped count query that returns, \<^verbatim>\<open>GET /api/slots\<close> answers with one entry
  for each label of \<open>TIME_SLOTS\<close>, in that order, where \<open>booked\<close> is the number of
  CONFIRMED bookings of (date, time), \<open>available\<close> is the capacity minus \<open>booked\<close>
  (an integer, which may be 0 or less) and \<open>isFull\<close> holds exactly when \<open>available\<close> is
  at most 0. The query counts rows whatever their status; in every state the server
  reaches all rows are CONFIRMED.
\<close>

theorem availability_formula:
  assumes "reachable ts w" and "d \<noteq> []" and "\<not> all_err e"
  shows "fst (get_slots e (Some d) w) =
           (200, Slots_body d
              (map (\<lambda>t. \<lparr>slot_time = t, capacity = CAPACITY_PER_SLOT,
                          booked = countActive d t (bookings w),
                          available = int CAPACITY_PER_SLOT - int (countActive d t (bookings w)),
                          isFull = (int CAPACITY_PER_SLOT - int (countActive d t (bookings w)) \<le> 0)\<rparr>)
                 TIME_SLOTS))"
proof -
  have "table_ok w" using assms(1) by (rule table_ok_reachable)
  then have "\<forall>b \<in> set (bookings w). status b = ''CONFIRMED''" by (simp add: table_ok_def)
  then have "\<And>t. select_count d t (bookings w) = countActive d t (bookings w)"
    by (rule select_count_confirmed)
  with assms(2,3) show ?thesis by (simp add: get_slots_view slot_entry_def)
qed

theorem availability_formula_witness:
  "reachable [Responded (201, Booking_body booking_a)] world_a
   \<and> ''2024-01-01'' \<noteq> [] \<and> \<not> all_err example_env
   \<and> fst (get_slots example_env (Some ''2024-01-01'') world_a) =
       (200, Slots_body ''2024-01-01''
          (\<lparr>slot_time = ''09:00'', capacity = 1, booked = 1, available = 0, isFull = True\<rparr> #
           map (\<lambda>t. \<lparr>slot_time = t, capacity = 1, booked = 0, available = 1, isFull = False\<rparr>)
             (tl TIME_SLOTS)))"
  using availability_formula [OF reachable_world_a, of "''2024-01-01''" example_env]
    reachable_world_a
  by (simp add: bookings_world_a countActive_def booking_a_def example_env_def TIME_SLOTS_def
      CAPACITY_PER_SLOT_def)

text \<open>
  C5 (validation precedence). A booking request in which lineUserId, name, date or time
  is missing or empty is answered 400 and leaves the state as it was: no statement is
  executed, so the table is neither read nor written. The route function answers by
  itself, before any statement is submitted.
\<close>

theorem validation_precedence:
  assumes "falsy (req_lineUserId rq) \<or> falsy (req_name rq) \<or> falsy (req_date rq)
             \<or> falsy (req_time rq)"
  shows "book e rq w = ((400, Error_body ''lineUserId, name, date, time are required''), w)
         \<and> executed (snd (book e rq w)) = executed w
         \<and> book_start rq =
             Responded (400, Error_body ''lineUserId, name, date, time are required'')"
  using assms by (simp add: book_invalid valid_body_def book_start_def)

theorem validation_precedence_witness:
  "falsy (req_name (request_a\<lparr>req_name := Some []\<rparr>))
   \<and> book example_env (request_a\<lparr>req_name := Some []\<rparr>) init_world =
       ((400, Error_body ''lineUserId, name, date, time are required''), init_world)
   \<and> executed (snd (book example_env (request_a\<lparr>req_name := Some []\<rparr>) init_world)) = []"
  using validation_precedence [of "request_a\<lparr>req_name := Some []\<rparr>" example_env init_world]
  by (simp add: falsy_def init_world_def)

text \<open>
  C6 (booking list ordering). For a user id given (a missing or empty one is answered
  400) and a query that returns, \<^verbatim>\<open>GET /api/my-bookings\<close> answers with exactly the
  rows of that user, each as often as the table holds it, in ascending order of
  (date, time), where strings compare bytewise. The order does not depend on the order
  of insertion: any table holding the same rows yields the same sequence of
  (date, time).
\<close>

theorem my_bookings_ordered:
  assumes "u \<noteq> []" and "\<not> all_err e"
  shows "\<exists>rows. fst (my_bookings e (Some u) w) = (200, Rows_body rows)
           \<and> mset rows = mset (filter (\<lambda>b. lineUserId b = u) (bookings w))
           \<and> sorted_wrt by_date_time rows
           \<and> (\<forall>w'. mset (bookings w') = mset (bookings w) \<longrightarrow>
                 (\<exists>rows'. fst (my_bookings e (Some u) w') = (200, Rows_body rows')
                    \<and> map (\<lambda>b. (date b, time b)) rows' = map (\<lambda>b. (date b, time b)) rows))"
proof (intro exI conjI allI impI)
  show "fst (my_bookings e (Some u) w) = (200, Rows_body (select_by_user u (bookings w)))"
    using assms by (simp add: my_bookings_rows)
  show "mset (select_by_user u (bookings w)) =
        mset (filter (\<lambda>b. lineUserId b = u) (bookings w))"
    by (rule select_by_user_mset)
  show "sorted_wrt by_date_time (select_by_user u (bookings w))"
    by (rule select_by_user_ordered)
next
  fix w' :: world
  assume p: "mset (bookings w') = mset (bookings w)"
  show "fst (my_bookings e (Some u) w') =
          (200, Rows_body (select_by_user u (bookings w')))"
    using assms by (simp add: my_bookings_rows)
  from p show "map (\<lambda>b. (date b, time b)) (select_by_user u (bookings w')) =
        map (\<lambda>b. (date b, time b)) (select_by_user u (bookings w))"
    by (rule select_by_user_perm)
qed

theorem my_bookings_ordered_witness:
  "''U1'' \<noteq> [] \<and> \<not> all_err example_env
   \<and> bookings world_cdef = [booking_c, booking_d, booking_e, booking_f]
   \<and> fst (my_bookings example_env (Some ''U1'') world_cdef) =
       (200, Rows_body [booking_f, booking_d, booking_c])
   \<and> sorted_wrt by_date_time [booking_f, booking_d, booking_c]"
proof -
  have h: "''U1'' \<noteq> []" "\<not> all_err example_env" by (simp_all add: example_env_def)
  have b: "bookings world_cdef = [booking_c, booking_d, booking_e, booking_f]"
    by (simp add: world_cdef_def init_world_def)
  have r: "fst (my_bookings example_env (Some ''U1'') world_cdef) =
       (200, Rows_body [booking_f, booking_d, booking_c])"
    using h by (simp add: my_bookings_rows b rows_cdef)
  from my_bookings_ordered [OF h, of world_cdef] r
  have "sorted_wrt by_date_time [booking_f, booking_d, booking_c]" by auto
  with h b r show ?thesis by simp
qed

text \<open>
  C7 (notification isolation). Whether the push of the confirmation fails has no effect
  on the response, on the table or on the id counter. A push is made only by a request
  that is answered 201, and a request answered 201 has its row in the table, with the
  next id and status CONFIRMED, and has made exactly one push, to its own user. A failed
  push is a rejected promise, which the handler catches and prints.
\<close>

theorem notification_isolation:
  "(fst (book (e\<lparr>push_err := True\<rparr>) rq w) = fst (book (e\<lparr>push_err := False\<rparr>) rq w)
    \<and> bookings (snd (book (e\<lparr>push_err := True\<rparr>) rq w)) =
        bookings (snd (book (e\<lparr>push_err := False\<rparr>) rq w))
    \<and> lastID (snd (book (e\<lparr>push_err := True\<rparr>) rq w)) =
        lastID (snd (book (e\<lparr>push_err := False\<rparr>) rq w)))
   \<and> (pushed (snd (book e rq w)) \<noteq> pushed w \<longrightarrow> fst (fst (book e rq w)) = 201)
   \<and> (fst (fst (book e rq w)) = 201 \<longrightarrow>
        fst (book e rq w) = (201, Booking_body (committed e rq w))
        \<and> bookingId (committed e rq w) = lastID w + 1
        \<and> status (committed e rq w) = ''CONFIRMED''
        \<and> bookings (snd (book e rq w)) = bookings w @ [committed e rq w]
        \<and> pushed (snd (book e rq w)) =
            pushed w @
              [(or_empty (req_lineUserId rq),
                confirmation_text (or_empty (req_name rq)) (or_empty (req_date rq))
                  (or_empty (req_time rq)) (lastID w + 1))])"
proof (intro conjI impI)
  show "fst (book (e\<lparr>push_err := True\<rparr>) rq w) = fst (book (e\<lparr>push_err := False\<rparr>) rq w)"
    using book_push_irrelevant [where p = True and e = e and rq = rq and w = w] book_push_irrelevant [where p = False and e = e and rq = rq and w = w]
    by simp
  show "bookings (snd (book (e\<lparr>push_err := True\<rparr>) rq w)) =
        bookings (snd (book (e\<lparr>push_err := False\<rparr>) rq w))"
    using book_push_irrelevant [where p = True and e = e and rq = rq and w = w] book_push_irrelevant [where p = False and e = e and rq = rq and w = w]
    by simp
  show "lastID (snd (book (e\<lparr>push_err := True\<rparr>) rq w)) =
        lastID (snd (book (e\<lparr>push_err := False\<rparr>) rq w))"
    using book_push_irrelevant [where p = True and e = e and rq = rq and w = w] book_push_irrelevant [where p = False and e = e and rq = rq and w = w]
    by simp
next
  assume "pushed (snd (book e rq w)) \<noteq> pushed w"
  then show "fst (fst (book e rq w)) = 201" by (rule book_pushes_only_created)
next
  assume "fst (fst (book e rq w)) = 201"
  then have c: "valid_body rq \<and> \<not> get_err e \<and> \<not> run_err e
      \<and> select_count (or_empty (req_date rq)) (or_empty (req_time rq)) (bookings w)
          < CAPACITY_PER_SLOT"
    by (rule book_201)
  then show "fst (book e rq w) = (201, Booking_body (committed e rq w))"
    by (simp add: book_created)
  show "bookingId (committed e rq w) = lastID w + 1" by (simp add: committed_def row_of_def)
  show "status (committed e rq w) = ''CONFIRMED''" by (simp add: committed_def row_of_def)
  from c show "bookings (snd (book e rq w)) = bookings w @ [committed e rq w]"
    by (simp add: book_created)
  from c show "pushed (snd (book e rq w)) =
      pushed w @
        [(or_empty (req_lineUserId rq),
          confirmation_text (or_empty (req_name rq)) (or_empty (req_date rq))
            (or_empty (req_time rq)) (lastID w + 1))]"
    by (simp add: book_created)
qed

theorem notification_isolation_witness:
  "fst (fst (book (example_env\<lparr>push_err := True\<rparr>) request_a init_world)) = 201
   \<and> fst (book (example_env\<lparr>push_err := True\<rparr>) request_a init_world) =
        (201, Booking_body booking_a)
   \<and> bookings (snd (book (example_env\<lparr>push_err := True\<rparr>) request_a init_world)) =
        [booking_a]
   \<and> pushed (snd (book (example_env\<lparr>push_err := True\<rparr>) request_a init_world)) \<noteq>
        pushed init_world
   \<and> console (snd (book (example_env\<lparr>push_err := True\<rparr>) request_a init_world)) =
        [Line_push_error]"
  using notification_isolation [of "example_env\<lparr>push_err := True\<rparr>" request_a init_world]
  by (simp add: example_defs book_defs Let_def)

text \<open>
  C8 (shape of a committed booking). In a state the server reaches, a request answered
  201 returns a booking whose id is the one the table assigned: one more than the
  counter, greater than every id in the table, and the new value of the counter; the
  booking is the row appended, ids stay distinct, the status of the booking and of every
  row is CONFIRMED, and the note is the empty string when the request has none. With
  requests in flight together every booking reported with a 201 is a row of the table
  and no two carry the same id (\<open>created_responses_are_rows\<close>).
\<close>

theorem committed_booking_shape:
  assumes "reachable ts w" and "fst (book e rq w) = (201, Booking_body b)"
  shows "bookingId b = lastID w + 1
         \<and> lastID (snd (book e rq w)) = bookingId b
         \<and> (\<forall>r \<in> set (bookings w). bookingId r < bookingId b)
         \<and> bookings (snd (book e rq w)) = bookings w @ [b]
         \<and> distinct (map bookingId (bookings (snd (book e rq w))))
         \<and> status b = ''CONFIRMED''
         \<and> (\<forall>r \<in> set (bookings (snd (book e rq w))). status r = ''CONFIRMED'')
         \<and> note_col b = or_empty (req_note rq)
         \<and> (req_note rq = None \<longrightarrow> note_col b = [])"
proof -
  from assms(2) have "fst (fst (book e rq w)) = 201" by simp
  then have c: "valid_body rq \<and> \<not> get_err e \<and> \<not> run_err e
      \<and> select_count (or_empty (req_date rq)) (or_empty (req_time rq)) (bookings w)
          < CAPACITY_PER_SLOT"
    by (rule book_201)
  with assms(2) have b: "b = committed e rq w" by (simp add: book_created)
  have ok: "table_ok w" using assms(1) by (rule table_ok_reachable)
  have ok': "table_ok (snd (book e rq w))"
    using reachable_book [OF assms(1), of e rq] by (rule table_ok_reachable)
  have rows: "bookings (snd (book e rq w)) = bookings w @ [b]"
    using c b by (simp add: book_created)
  have "lastID (snd (book e rq w)) = bookingId b"
    using c b by (simp add: book_created committed_def row_of_def)
  moreover have "\<forall>r \<in> set (bookings w). bookingId r < bookingId b"
    using ok b by (auto simp: table_ok_def committed_def row_of_def)
  moreover have "distinct (map bookingId (bookings (snd (book e rq w))))"
    using ok' by (simp add: table_ok_def)
  moreover have "\<forall>r \<in> set (bookings (snd (book e rq w))). status r = ''CONFIRMED''"
    using ok' by (simp add: table_ok_def)
  moreover have "note_col b = or_empty (req_note rq)" using b by (simp add: committed_def row_of_def)
  moreover have "req_note rq = None \<longrightarrow> note_col b = []"
    using b by (simp add: committed_def row_of_def or_empty_def)
  ultimately show ?thesis using rows b by (simp add: committed_def row_of_def)
qed

theorem committed_booking_shape_witness:
  "reachable [Responded (201, Booking_body booking_a)]
     (snd (book example_env request_a init_world))
   \<and> fst (book example_env (request_b\<lparr>req_time := Some ''09:30''\<rparr>)
        (snd (book example_env request_a init_world))) =
       (201, Booking_body (booking_b\<lparr>time := ''09:30''\<rparr>))
   \<and> bookingId (booking_b\<lparr>time := ''09:30''\<rparr>) = 2
   \<and> bookings (snd (book example_env (request_b\<lparr>req_time := Some ''09:30''\<rparr>)
        (snd (book example_env request_a init_world)))) =
       [booking_a, booking_b\<lparr>time := ''09:30''\<rparr>]
   \<and> note_col (booking_b\<lparr>time := ''09:30''\<rparr>) = []"
proof -
  have r: "reachable [Responded (201, Booking_body booking_a)]
     (snd (book example_env request_a init_world))"
    by (rule reachable_booking_a)
  have f: "fst (book example_env (request_b\<lparr>req_time := Some ''09:30''\<rparr>)
        (snd (book example_env request_a init_world))) =
       (201, Booking_body (booking_b\<lparr>time := ''09:30''\<rparr>))"
    by (simp add: example_defs book_defs Let_def)
  from committed_booking_shape [OF r f] r f show ?thesis
    by (simp add: example_defs book_defs Let_def)
qed

text \<open>
  C9 (shape of the availability view). For a date given and a query that returns, in
  every state of the table, the entries of \<^verbatim>\<open>GET /api/slots\<close> carry exactly the 13
  labels of \<open>TIME_SLOTS\<close> in their order, and rows whose time is not one of the labels
  do not show: the view is the same with all of them removed, and the same with one
  more of them added.
\<close>

theorem availability_shape:
  assumes "d \<noteq> []" and "\<not> all_err e"
  shows "\<exists>slots. fst (get_slots e (Some d) w) = (200, Slots_body d slots)
           \<and> map slot_time slots = TIME_SLOTS
           \<and> length slots = 13
           \<and> fst (get_slots e (Some d)
                 (w\<lparr>bookings := filter (\<lambda>b. time b \<in> set TIME_SLOTS) (bookings w)\<rparr>)) =
               (200, Slots_body d slots)
           \<and> (\<forall>b. time b \<notin> set TIME_SLOTS \<longrightarrow>
                 fst (get_slots e (Some d) (w\<lparr>bookings := bookings w @ [b]\<rparr>)) =
                   (200, Slots_body d slots))"
proof -
  let ?slots = "map (\<lambda>t. slot_entry t (select_count d t (bookings w))) TIME_SLOTS"
  have 1: "fst (get_slots e (Some d) w) = (200, Slots_body d ?slots)"
    using assms by (simp add: get_slots_view)
  have 2: "map slot_time ?slots = TIME_SLOTS"
    by (simp add: slot_entry_def comp_def)
  have 3: "length ?slots = 13" by (simp add: TIME_SLOTS_def)
  have 4: "fst (get_slots e (Some d)
                 (w\<lparr>bookings := filter (\<lambda>b. time b \<in> set TIME_SLOTS) (bookings w)\<rparr>)) =
               (200, Slots_body d ?slots)"
    using assms by (simp add: get_slots_view select_count_catalog cong: map_cong)
  have 5: "\<forall>b. time b \<notin> set TIME_SLOTS \<longrightarrow>
                 fst (get_slots e (Some d) (w\<lparr>bookings := bookings w @ [b]\<rparr>)) =
                   (200, Slots_body d ?slots)"
  proof (intro allI impI)
    fix b :: booking
    assume "time b \<notin> set TIME_SLOTS"
    then have "\<And>t. t \<in> set TIME_SLOTS \<Longrightarrow>
        select_count d t (bookings w @ [b]) = select_count d t (bookings w)"
      by (intro select_count_append_other) auto
    with assms show "fst (get_slots e (Some d) (w\<lparr>bookings := bookings w @ [b]\<rparr>)) =
                   (200, Slots_body d ?slots)"
      by (simp add: get_slots_view cong: map_cong)
  qed
  from 1 2 3 4 5 show ?thesis by blast
qed

theorem availability_shape_witness:
  "''2024-01-01'' \<noteq> [] \<and> \<not> all_err example_env
   \<and> time booking_late \<notin> set TIME_SLOTS
   \<and> fst (get_slots example_env (Some ''2024-01-01'') (init_world\<lparr>bookings := [booking_late]\<rparr>)) =
       (200, Slots_body ''2024-01-01''
          (map (\<lambda>t. \<lparr>slot_time = t, capacity = 1, booked = 0, available = 1, isFull = False\<rparr>)
             TIME_SLOTS))"
proof -
  have h: "''2024-01-01'' \<noteq> []" "\<not> all_err example_env" by (simp_all add: example_env_def)
  have l: "time booking_late \<notin> set TIME_SLOTS" by (simp add: booking_late_def TIME_SLOTS_def)
  from availability_shape [OF h, of init_world]
  obtain slots where
    s: "fst (get_slots example_env (Some ''2024-01-01'') init_world) =
          (200, Slots_body ''2024-01-01'' slots)"
    and a: "\<forall>b. time b \<notin> set TIME_SLOTS \<longrightarrow>
          fst (get_slots example_env (Some ''2024-01-01'')
                 (init_world\<lparr>bookings := bookings init_world @ [b]\<rparr>)) =
            (200, Slots_body ''2024-01-01'' slots)"
    by blast
  have "slots = map (\<lambda>t. \<lparr>slot_time = t, capacity = 1, booked = 0, available = 1, isFull = False\<rparr>)
             TIME_SLOTS"
    using s h by (simp add: get_slots_view slot_entry_def select_count_def init_world_def
        CAPACITY_PER_SLOT_def)
  with a l h show ?thesis by (simp add: init_world_def)
qed

text \<open>
  C10 (chat and REST list the same rows). For a text message that trims to the
  my-queue command, from a user with a non-empty id, and a query that returns: the chat
  handler and \<^verbatim>\<open>GET /api/my-bookings\<close> execute the same statement with the same
  parameter, and the reply of the chat handler is rendered from exactly the rows of the
  REST response, in their order, which is ascending by (date, time); with no rows it is
  the no-queue text.
\<close>

theorem chat_lists_rest_rows:
  assumes "ev_type ev = ''message''" and "message_type ev = ''text''"
    and "trim (message_text ev) = MY_QUEUE"
    and "source_userId ev = u" and "u \<noteq> []" and "\<not> all_err e"
  shows "\<exists>rows. fst (my_bookings e (Some u) w) = (200, Rows_body rows)
           \<and> executed (snd (my_bookings e (Some u) w)) = executed w @ [Select_by_user u]
           \<and> executed (snd (handleLineEvent e ev w)) = executed w @ [Select_by_user u]
           \<and> replied (snd (handleLineEvent e ev w)) =
               replied w @ [(replyToken ev, if rows = [] then NO_QUEUE else queue_text rows)]
           \<and> sorted_wrt by_date_time rows"
proof (intro exI conjI)
  show "fst (my_bookings e (Some u) w) = (200, Rows_body (select_by_user u (bookings w)))"
    using assms by (simp add: my_bookings_rows)
  show "executed (snd (my_bookings e (Some u) w)) = executed w @ [Select_by_user u]"
    using assms by (simp add: my_bookings_rows)
  show "executed (snd (handleLineEvent e ev w)) = executed w @ [Select_by_user u]"
    using assms by (simp add: handleLineEvent_my_queue reply_message_def)
  show "replied (snd (handleLineEvent e ev w)) =
          replied w @
            [(replyToken ev,
              if select_by_user u (bookings w) = [] then NO_QUEUE
              else queue_text (select_by_user u (bookings w)))]"
    using assms by (simp add: handleLineEvent_my_queue reply_message_def)
  show "sorted_wrt by_date_time (select_by_user u (bookings w))"
    by (rule select_by_user_ordered)
qed

theorem chat_lists_rest_rows_witness:
  "ev_type event_my_queue = ''message'' \<and> message_type event_my_queue = ''text''
   \<and> trim (message_text event_my_queue) = MY_QUEUE
   \<and> source_userId event_my_queue = ''U1'' \<and> ''U1'' \<noteq> [] \<and> \<not> all_err example_env
   \<and> fst (my_bookings example_env (Some ''U1'') world_cdef) =
       (200, Rows_body [booking_f, booking_d, booking_c])
   \<and> replied (snd (handleLineEvent example_env event_my_queue world_cdef)) =
       [(''token-1'', queue_text [booking_f, booking_d, booking_c])]"
proof -
  have t: "message_text event_my_queue = '' '' @ MY_QUEUE @ [CHR 0x0A, CHR 0x09]"
    by (simp add: event_my_queue_def)
  have h: "ev_type event_my_queue = ''message''" "message_type event_my_queue = ''text''"
    "trim (message_text event_my_queue) = MY_QUEUE"
    "source_userId event_my_queue = ''U1''" "''U1'' \<noteq> []" "\<not> all_err example_env"
    by (simp_all only: t trim_padded) (simp_all add: event_my_queue_def example_env_def)
  have r: "fst (my_bookings example_env (Some ''U1'') world_cdef) =
       (200, Rows_body [booking_f, booking_d, booking_c])"
    using h by (simp add: my_bookings_rows world_cdef_def init_world_def rows_cdef)
  from chat_lists_rest_rows [OF h, of world_cdef] r
  have "replied (snd (handleLineEvent example_env event_my_queue world_cdef)) =
       [(''token-1'', queue_text [booking_f, booking_d, booking_c])]"
    by (auto simp: world_cdef_def init_world_def event_my_queue_def)
  with h r show ?thesis by simp
qed

end
